theory Spec2Isabelle
  imports Complex_Main "HOL-Library.Sublist"
begin

section \<open>Python values used by \<open>training/training.py\<close>\<close>

text \<open>
  The script is a Python program. Its strings are modelled as \<open>string\<close> (characters
  with code points below 256), its unbounded integers as \<open>int\<close>, and every exception it can raise in
  the modelled part as a value of \<open>py_error\<close>. \<open>ArgumentError\<close> is the exit of
  \<open>argparse\<close> on a rejected command line; \<open>LoadError\<close> stands for any failure of an
  external loader (\<open>load_from_disk\<close>, \<open>from_pretrained\<close>).
\<close>

datatype py_error =
    ArgumentError
  | KeyError
  | IndexError
  | ValueError
  | AttributeError
  | LoadError

subsection \<open>\<open>str(int)\<close>, as used by the f-strings\<close>

definition digit_char :: "nat \<Rightarrow> char" where
  "digit_char d = ''0123456789'' ! d"

fun str_nat :: "nat \<Rightarrow> string" where
  "str_nat n = (if n < 10 then [digit_char n] else str_nat (n div 10) @ [digit_char (n mod 10)])"

declare str_nat.simps [simp del]

definition str_int :: "int \<Rightarrow> string" where
  "str_int i = (if i < 0 then CHR ''-'' # str_nat (nat (- i)) else str_nat (nat i))"

subsection \<open>\<open>int(str)\<close>\<close>

text \<open>
  \<open>int(s)\<close> in base 10: surrounding whitespace is stripped, one sign is allowed, then
  at least one digit, with single underscores allowed between digits. Anything else
  raises \<open>ValueError\<close> (\<open>None\<close> here). The whitespace that \<open>int\<close> strips is, below code
  point 256, the six ASCII whitespace characters, the next-line character U+0085 and the
  no-break space U+00A0 (the separators U+001C to U+001F are not stripped). A literal
  with more than \<open>sys.get_int_max_str_digits()\<close> digits, 4300 unless reconfigured, is
  refused with \<open>ValueError\<close> too; the sign, the underscores and the whitespace do not
  count as digits.
\<close>

definition is_space :: "char \<Rightarrow> bool" where
  "is_space c =
     (c \<in> set [CHR '' '', CHR 0x09, CHR 0x0A, CHR 0x0B, CHR 0x0C, CHR 0x0D, CHR 0x85, CHR 0xA0])"

definition py_strip :: "string \<Rightarrow> string" where
  "py_strip s = rev (dropWhile is_space (rev (dropWhile is_space s)))"

definition digit_val :: "char \<Rightarrow> nat option" where
  "digit_val c = map_of
     [(CHR ''0'', 0), (CHR ''1'', 1), (CHR ''2'', 2), (CHR ''3'', 3), (CHR ''4'', 4),
      (CHR ''5'', 5), (CHR ''6'', 6), (CHR ''7'', 7), (CHR ''8'', 8), (CHR ''9'', 9)] c"

text \<open>\<open>digits_acc acc cs\<close> reads the rest of a literal whose previous character was a digit.\<close>

fun digits_acc :: "nat \<Rightarrow> string \<Rightarrow> nat option" where
  "digits_acc acc [] = Some acc"
| "digits_acc acc (c # cs) =
     (if c = CHR ''_'' then
        (case cs of
           [] \<Rightarrow> None
         | d # ds \<Rightarrow> (case digit_val d of None \<Rightarrow> None | Some v \<Rightarrow> digits_acc (10 * acc + v) ds))
      else (case digit_val c of None \<Rightarrow> None | Some v \<Rightarrow> digits_acc (10 * acc + v) cs))"

definition int_max_str_digits :: nat where
  "int_max_str_digits = 4300"

definition py_digits :: "string \<Rightarrow> nat option" where
  "py_digits body =
     (case body of
        [] \<Rightarrow> None
      | c # cs \<Rightarrow>
          (case digit_val c of
             None \<Rightarrow> None
           | Some v \<Rightarrow>
               if int_max_str_digits < length (filter (\<lambda>d. d \<noteq> CHR ''_'') body) then None
               else digits_acc v cs))"

definition py_int :: "string \<Rightarrow> int option" where
  "py_int s =
     (case py_strip s of
        [] \<Rightarrow> None
      | c # cs \<Rightarrow>
          if c = CHR ''-'' then map_option (\<lambda>n. - int n) (py_digits cs)
          else if c = CHR ''+'' then map_option int (py_digits cs)
          else map_option int (py_digits (c # cs)))"

subsection \<open>\<open>str.startswith\<close>, \<open>str.split\<close>, list indexing, \<open>os.path.join\<close>\<close>

fun startswith :: "string \<Rightarrow> string \<Rightarrow> bool" where
  "startswith s [] = True"
| "startswith [] (p # ps) = False"
| "startswith (c # cs) (p # ps) = (c = p \<and> startswith cs ps)"

text \<open>\<open>s.split(sep)\<close> for a one-character separator: never an empty list.\<close>

fun py_split :: "char \<Rightarrow> string \<Rightarrow> string list" where
  "py_split sep [] = [[]]"
| "py_split sep (c # cs) =
     (if c = sep then [] # py_split sep cs
      else (let r = py_split sep cs in (c # hd r) # tl r))"

text \<open>\<open>xs[i]\<close> for a non-negative index: out of range raises \<open>IndexError\<close>.\<close>

definition py_index :: "'a list \<Rightarrow> nat \<Rightarrow> py_error + 'a" where
  "py_index xs i = (if i < length xs then Inr (xs ! i) else Inl IndexError)"

text \<open>\<open>os.path.join(a, b)\<close> on POSIX.\<close>

definition path_join :: "string \<Rightarrow> string \<Rightarrow> string" where
  "path_join a b =
     (if startswith b ''/'' then b
      else if a = [] \<or> last a = CHR ''/'' then a @ b
      else a @ ''/'' @ b)"

section \<open>Command line (lines 15--26)\<close>

record args =
  args_model_size :: string
  args_freeze_layers :: int

definition choices :: "string list" where
  "choices = [''tiny'', ''small'', ''medium'', ''large'']"

text \<open>
  \<open>parse_args size_arg freeze_arg\<close>: the positional argument must be one of
  \<open>choices\<close>; the value of \<open>--freeze_layers\<close>, when the flag is given, is converted
  with \<open>int\<close> (\<open>type=int\<close>), and is 0 otherwise. No other check is made.
  \<open>freeze_arg\<close> is the string that \<open>argparse\<close> hands to \<open>int\<close>.
\<close>

definition parse_args :: "string \<Rightarrow> string option \<Rightarrow> py_error + args" where
  "parse_args size_arg freeze_arg =
     (if size_arg \<notin> set choices then Inl ArgumentError
      else (case freeze_arg of
              None \<Rightarrow> Inr \<lparr>args_model_size = size_arg, args_freeze_layers = 0\<rparr>
            | Some s \<Rightarrow>
                (case py_int s of
                   None \<Rightarrow> Inl ArgumentError
                 | Some n \<Rightarrow> Inr \<lparr>args_model_size = size_arg, args_freeze_layers = n\<rparr>)))"

definition model_map :: "string \<Rightarrow> string option" where
  "model_map = map_of
     [(''tiny'', ''openai/whisper-tiny''),
      (''small'', ''openai/whisper-small''),
      (''medium'', ''openai/whisper-medium''),
      (''large'', ''openai/whisper-large-v3'')]"

section \<open>Freezing encoder layers (lines 45--52)\<close>

text \<open>
  The model is an external object. What the script touches is the ordered collection
  \<open>model.model.encoder.layers\<close>, each layer giving its parameters, and the flag
  \<open>requires_grad\<close> of each parameter. Parameters are objects: they are modelled as
  addresses (\<open>nat\<close>) into a store of flags, so that a parameter reachable from
  several places is one parameter. Indexing the layer collection out of range raises
  \<open>IndexError\<close>.
\<close>

record whisper =
  encoder_layers :: "nat list list"
  requires_grad :: "nat \<Rightarrow> bool"

text \<open>The inner loop, lines 49--50.\<close>

fun freeze_params :: "nat list \<Rightarrow> (nat \<Rightarrow> bool) \<Rightarrow> (nat \<Rightarrow> bool)" where
  "freeze_params [] rg = rg"
| "freeze_params (p # ps) rg = freeze_params ps (rg(p := False))"

text \<open>
  The outer loop, line 48, over the indices still to visit. The state reached when
  the exception is raised is part of the result.
\<close>

fun freeze_loop :: "nat list \<Rightarrow> whisper \<Rightarrow> py_error option \<times> whisper" where
  "freeze_loop [] m = (None, m)"
| "freeze_loop (layer_idx # rest) m =
     (case py_index (encoder_layers m) layer_idx of
        Inl e \<Rightarrow> (Some e, m)
      | Inr layer \<Rightarrow>
          freeze_loop rest (m\<lparr>requires_grad := freeze_params layer (requires_grad m)\<rparr>))"

definition py_range :: "int \<Rightarrow> nat list" where
  "py_range n = [0..<nat n]"

text \<open>Lines 46--52: the printed lines, the exception if one is raised, and the model.\<close>

definition freeze_encoder_layers :: "int \<Rightarrow> whisper \<Rightarrow> string list \<times> py_error option \<times> whisper" where
  "freeze_encoder_layers freeze_layers m =
     (if freeze_layers > 0 then
        (case freeze_loop (py_range freeze_layers) m of
           (err, m') \<Rightarrow>
             ([''Freezing the first '' @ str_int freeze_layers @ '' encoder layers.''], err, m'))
      else ([''No encoder layers are frozen.''], None, m))"

section \<open>Training arguments by model size (lines 70--148)\<close>

record seq2seq_training_args =
  output_dir :: string
  per_device_train_batch_size :: int
  gradient_accumulation_steps :: int
  learning_rate :: real
  warmup_steps :: int
  max_steps :: int
  gradient_checkpointing :: bool
  fp16 :: bool
  eval_strategy :: string
  per_device_eval_batch_size :: int
  predict_with_generate :: bool
  generation_max_length :: int
  save_steps :: int
  eval_steps :: int
  logging_steps :: int
  report_to :: "string list"
  load_best_model_at_end :: bool
  metric_for_best_model :: string
  greater_is_better :: bool
  push_to_hub :: bool
  save_total_limit :: int

text \<open>
  The three branches differ in four fields only; \<open>size_args\<close> builds the record from
  them, with the literals common to the three calls. A Python function that reaches its
  end without \<open>return\<close> returns \<open>None\<close>: this is the last branch.
\<close>

definition size_args :: "string \<Rightarrow> int \<Rightarrow> int \<Rightarrow> real \<Rightarrow> int \<Rightarrow> seq2seq_training_args" where
  "size_args out_dir batch accum lr warmup =
     \<lparr>output_dir = out_dir,
      per_device_train_batch_size = batch,
      gradient_accumulation_steps = accum,
      learning_rate = lr,
      warmup_steps = warmup,
      max_steps = 14000,
      gradient_checkpointing = True,
      fp16 = True,
      eval_strategy = ''steps'',
      per_device_eval_batch_size = 8,
      predict_with_generate = True,
      generation_max_length = 225,
      save_steps = 1000,
      eval_steps = 1000,
      logging_steps = 25,
      report_to = [''tensorboard''],
      load_best_model_at_end = True,
      metric_for_best_model = ''wer'',
      greater_is_better = False,
      push_to_hub = False,
      save_total_limit = 5\<rparr>"

definition get_training_args :: "string \<Rightarrow> int \<Rightarrow> seq2seq_training_args option" where
  "get_training_args model_size freeze_layers =
     (let out_dir =
            (if model_size = ''large'' \<and> freeze_layers > 0
             then ''../../trained_models/whisper-large-freezing-'' @ str_int freeze_layers
             else ''../../trained_models/whisper-'' @ model_size @ ''-vanilla'')
      in if model_size = ''small'' then Some (size_args out_dir 16 1 (125 / 10000000) 500)
         else if model_size = ''medium'' then Some (size_args out_dir 8 2 (625 / 100000000) 500)
         else if model_size = ''large'' then Some (size_args out_dir 4 4 (5 / 1000000) 1000)
         else None)"

section \<open>Latest checkpoint (lines 153--160)\<close>

text \<open>
  The file system as the function sees it. The name of a directory entry is a non-empty
  string of at most 255 characters without \<open>/\<close>: \<open>os.listdir\<close> reads the names from
  the \<open>d_name\<close> field of \<open>readdir\<close>, which holds \<open>NAME_MAX\<close> = 255 bytes. \<open>fs path\<close> is
  \<open>None\<close> when \<open>path\<close> is not a directory (\<open>os.path.isdir\<close>), and the entries of the
  directory otherwise; \<open>os_listdir\<close> gives their names.
\<close>

typedef filename = "{s :: string. s \<noteq> [] \<and> length s \<le> 255 \<and> CHR ''/'' \<notin> set s}"
  morphisms name_of Filename
  by (rule exI [of _ "''a''"]) simp

type_synonym filesystem = "string \<Rightarrow> filename list option"

definition os_listdir :: "filesystem \<Rightarrow> string \<Rightarrow> string list option" where
  "os_listdir fs path = map_option (map name_of) (fs path)"

text \<open>The sort key of line 158: \<open>int(x.split("-")[1])\<close>.\<close>

definition checkpoint_key :: "string \<Rightarrow> py_error + int" where
  "checkpoint_key x =
     (case py_index (py_split CHR ''-'' x) 1 of
        Inl e \<Rightarrow> Inl e
      | Inr field \<Rightarrow> (case py_int field of None \<Rightarrow> Inl ValueError | Some n \<Rightarrow> Inr n))"

text \<open>
  \<open>list.sort(key=..., reverse=True)\<close>: the key of every element is computed first, in
  list order, and the first exception ends the call; then the list is reversed, sorted
  stably by key, and reversed again.
\<close>

fun keys_of :: "('a \<Rightarrow> py_error + 'k) \<Rightarrow> 'a list \<Rightarrow> py_error + ('k \<times> 'a) list" where
  "keys_of key [] = Inr []"
| "keys_of key (x # xs) =
     (case key x of
        Inl e \<Rightarrow> Inl e
      | Inr k \<Rightarrow> (case keys_of key xs of Inl e \<Rightarrow> Inl e | Inr kxs \<Rightarrow> Inr ((k, x) # kxs)))"

definition sort_reverse :: "('a \<Rightarrow> py_error + int) \<Rightarrow> 'a list \<Rightarrow> py_error + 'a list" where
  "sort_reverse key xs =
     (case keys_of key xs of
        Inl e \<Rightarrow> Inl e
      | Inr kxs \<Rightarrow> Inr (map snd (rev (sort_key fst (rev kxs)))))"

definition get_latest_checkpoint :: "filesystem \<Rightarrow> string \<Rightarrow> py_error + string option" where
  "get_latest_checkpoint fs out_dir =
     (case os_listdir fs out_dir of
        None \<Rightarrow> Inr None
      | Some entries \<Rightarrow>
          (let checkpoints = filter (\<lambda>d. startswith d ''checkpoint'') entries
           in if checkpoints \<noteq> [] then
                (case sort_reverse checkpoint_key checkpoints of
                   Inl e \<Rightarrow> Inl e
                 | Inr sorted_checkpoints \<Rightarrow>
                     (case py_index sorted_checkpoints 0 of
                        Inl e \<Rightarrow> Inl e
                      | Inr latest \<Rightarrow> Inr (Some (path_join out_dir latest))))
              else Inr None))"

section \<open>The script (lines 18--183)\<close>

text \<open>
  Lines 162--166 and 183: the line printed and the value passed to
  \<open>trainer.train(resume_from_checkpoint=...)\<close>. \<open>if checkpoint:\<close> tests truthiness:
  \<open>None\<close> and the empty string are false.
\<close>

definition truthy :: "string option \<Rightarrow> bool" where
  "truthy v = (case v of None \<Rightarrow> False | Some s \<Rightarrow> s \<noteq> [])"

definition checkpoint_stage :: "filesystem \<Rightarrow> string \<Rightarrow> py_error + string \<times> string option" where
  "checkpoint_stage fs out_dir =
     (case get_latest_checkpoint fs out_dir of
        Inl e \<Rightarrow> Inl e
      | Inr checkpoint \<Rightarrow>
          Inr (if truthy checkpoint then ''Resuming from checkpoint: '' @ the checkpoint
               else ''No checkpoint found. Starting fresh training.'',
               checkpoint))"

text \<open>
  What the run does that can be observed, in order. The external collaborators are the
  environment: whether an accelerator is there, the splits of the dataset stored at a
  path (\<open>None\<close> when loading fails), the model behind a hub identifier, the file system.
\<close>

datatype event =
    Print string
  | LoadDataset string
  | LoadModel string
  | LoadProcessor string
  | SaveProcessor string
  | Train "string option"

record env =
  cuda_is_available :: bool
  load_from_disk :: "string \<Rightarrow> string list option"
  from_pretrained :: "string \<Rightarrow> whisper option"
  listdir :: filesystem

record training_call =
  call_model :: whisper
  call_args :: seq2seq_training_args
  call_resume :: "string option"

text \<open>
  Lines 20--150, from the model identifier to the training arguments: the events, and
  either the exception that ended the run or the identifier, the model after the
  freezing step and the value of \<open>get_training_args\<close>.
\<close>

definition prepare ::
  "env \<Rightarrow> args \<Rightarrow> event list \<times> (py_error + string \<times> whisper \<times> seq2seq_training_args option)" where
  "prepare e a =
     (case model_map (args_model_size a) of
        None \<Rightarrow> ([], Inl KeyError)
      | Some model_id \<Rightarrow>
     (let ev1 = [Print (''Using device: '' @ (if cuda_is_available e then ''cuda:0'' else ''cpu''))];
          dataset_path = ''../../data_processed/dataset_dict_'' @ args_model_size a;
          ev2 = ev1 @ [LoadDataset dataset_path]
      in
     (case load_from_disk e dataset_path of
        None \<Rightarrow> (ev2, Inl LoadError)
      | Some splits \<Rightarrow>
     (if \<not> set [''train'', ''eval'', ''test''] \<subseteq> set splits then (ev2, Inl KeyError)
      else
     (let ev3 = ev2 @ [Print ''Data set loaded.'', LoadModel model_id] in
     (case from_pretrained e model_id of
        None \<Rightarrow> (ev3, Inl LoadError)
      | Some model \<Rightarrow>
     (case freeze_encoder_layers (args_freeze_layers a) model of
        (printed, raised, model') \<Rightarrow>
     (let ev4 = ev3 @ map Print printed in
     (case raised of
        Some err \<Rightarrow> (ev4, Inl err)
      | None \<Rightarrow>
          (ev4 @ [Print (''Model '' @ model_id @ '' set up finished.''),
                  LoadProcessor model_id, Print ''Data collator finished.''],
           Inr (model_id, model',
                get_training_args (args_model_size a) (args_freeze_layers a))))))))))))"

text \<open>
  The script up to the call of \<open>trainer.train\<close>: the events so far, and either the
  exception that ended the run or what the training loop is called with. When
  \<open>get_training_args\<close> has returned \<open>None\<close>, reading \<open>training_args.output_dir\<close> at
  line 162 raises \<open>AttributeError\<close>.
\<close>

definition script :: "env \<Rightarrow> string \<Rightarrow> string option \<Rightarrow> event list \<times> (py_error + training_call)" where
  "script e size_arg freeze_arg =
     (case parse_args size_arg freeze_arg of
        Inl err \<Rightarrow> ([], Inl err)
      | Inr a \<Rightarrow>
     (case prepare e a of
        (evs, Inl err) \<Rightarrow> (evs, Inl err)
      | (evs, Inr (model_id, model', None)) \<Rightarrow> (evs, Inl AttributeError)
      | (evs, Inr (model_id, model', Some training_args)) \<Rightarrow>
     (case checkpoint_stage (listdir e) (output_dir training_args) of
        Inl err \<Rightarrow> (evs, Inl err)
      | Inr (line, checkpoint) \<Rightarrow>
          (evs @ [Print line, SaveProcessor (output_dir training_args),
                  Print (''Starting training for '' @ model_id @ ''...''), Train checkpoint],
           Inr \<lparr>call_model = model', call_args = training_args,
                call_resume = checkpoint\<rparr>))))"

section \<open>Vocabulary of the specification\<close>

text \<open>
  The specification speaks of entries named \<open>checkpoint-<integer>\<close> and of their
  integer suffix. These two definitions follow its words, not the code: a well-formed
  name is \<open>checkpoint-\<close> followed by one or more decimal digits, and its suffix is the
  value of these digits.
\<close>

definition is_digit :: "char \<Rightarrow> bool" where
  "is_digit c = (c \<in> set ''0123456789'')"

definition well_formed_checkpoint :: "string \<Rightarrow> bool" where
  "well_formed_checkpoint e =
     (startswith e ''checkpoint-'' \<and> drop 11 e \<noteq> [] \<and> list_all is_digit (drop 11 e))"

definition decimal :: "string \<Rightarrow> nat" where
  "decimal ds = foldl (\<lambda>a c. 10 * a + the (digit_val c)) 0 ds"

definition integer_suffix :: "string \<Rightarrow> int" where
  "integer_suffix e = int (decimal (drop 11 e))"

section \<open>Concrete inputs\<close>

text \<open>A model with two encoder layers and one parameter (address 4) outside them.\<close>

definition two_layer_model :: whisper where
  "two_layer_model = \<lparr>encoder_layers = [[0, 1], [2, 3]], requires_grad = (\<lambda>p. True)\<rparr>"

text \<open>The file system with one directory \<open>d\<close>, whose entries have the given names.\<close>

definition dir_with :: "string \<Rightarrow> string list \<Rightarrow> filesystem" where
  "dir_with d names = (\<lambda>p. if p = d then Some (map Filename names) else None)"

text \<open>
  An environment in which every external loader succeeds and no output directory
  exists yet.
\<close>

definition fresh_env :: env where
  "fresh_env =
     \<lparr>cuda_is_available = False,
      load_from_disk = (\<lambda>p. Some [''train'', ''eval'', ''test'']),
      from_pretrained = (\<lambda>model_id. Some two_layer_model),
      listdir = (\<lambda>p. None)\<rparr>"

section \<open>Evaluation on small inputs\<close>

lemma str_int_3: "str_int 3 = ''3''"
  by (simp add: str_int_def str_nat.simps digit_char_def)

lemma str_int_30: "str_int 30 = ''30''"
  by (simp add: str_int_def str_nat.simps digit_char_def)

lemma py_int_100: "py_int ''100'' = Some 100"
  by (simp add: py_int_def py_strip_def is_space_def py_digits_def int_max_str_digits_def digit_val_def)

lemma py_int_neg: "py_int ''-1'' = Some (- 1)"
  by (simp add: py_int_def py_strip_def is_space_def py_digits_def int_max_str_digits_def digit_val_def)

lemma py_int_abc: "py_int ''abc'' = None"
  by (simp add: py_int_def py_strip_def is_space_def py_digits_def int_max_str_digits_def digit_val_def)

lemma py_split_example: "py_split CHR ''-'' ''checkpoint-100-backup'' = [''checkpoint'', ''100'', ''backup'']"
  by simp

section \<open>The freezing loop\<close>

lemma freeze_params_apply: "freeze_params ps rg p = (if p \<in> set ps then False else rg p)"
  by (induction ps arbitrary: rg) auto

lemma freeze_loop_layers: "encoder_layers (snd (freeze_loop idxs m)) = encoder_layers m"
  by (induction idxs arbitrary: m) (auto simp: py_index_def)

lemma freeze_loop_mono:
  "\<not> requires_grad m p \<Longrightarrow> \<not> requires_grad (snd (freeze_loop idxs m)) p"
  by (induction idxs arbitrary: m) (auto simp: py_index_def freeze_params_apply)

lemma freeze_loop_in_range:
  "\<forall>i\<in>set idxs. i < length (encoder_layers m) \<Longrightarrow>
   fst (freeze_loop idxs m) = None \<and>
   requires_grad (snd (freeze_loop idxs m)) p =
     (if \<exists>i\<in>set idxs. p \<in> set (encoder_layers m ! i) then False else requires_grad m p)"
proof (induction idxs arbitrary: m)
  case Nil
  then show ?case by simp
next
  case (Cons i idxs)
  let ?m = "m\<lparr>requires_grad := freeze_params (encoder_layers m ! i) (requires_grad m)\<rparr>"
  have i: "i < length (encoder_layers m)" using Cons.prems by simp
  have rest: "\<forall>j\<in>set idxs. j < length (encoder_layers ?m)" using Cons.prems by simp
  have step: "freeze_loop (i # idxs) m = freeze_loop idxs ?m"
    using i by (simp add: py_index_def)
  show ?case
    unfolding step using Cons.IH [OF rest]
    by (auto simp: freeze_params_apply simp del: freeze_loop.simps)
qed

lemma freeze_loop_out_of_range:
  "\<exists>i\<in>set idxs. \<not> i < length (encoder_layers m) \<Longrightarrow> fst (freeze_loop idxs m) = Some IndexError"
proof (induction idxs arbitrary: m)
  case Nil
  then show ?case by simp
next
  case (Cons i idxs)
  show ?case
  proof (cases "i < length (encoder_layers m)")
    case True
    let ?m = "m\<lparr>requires_grad := freeze_params (encoder_layers m ! i) (requires_grad m)\<rparr>"
    have "\<exists>j\<in>set idxs. \<not> j < length (encoder_layers ?m)" using Cons.prems True by auto
    from Cons.IH [OF this] show ?thesis using True by (simp add: py_index_def)
  next
    case False
    then show ?thesis by (simp add: py_index_def)
  qed
qed

text \<open>
  Claim C3. For every freeze-layer count strictly greater than the number of encoder
  layers of the model, the freezing step fails with a bounds error: the loop reaches
  the index equal to the number of layers, and indexing the layer collection there
  raises \<open>IndexError\<close>. Nothing is clamped and the run does not continue.
\<close>

theorem freeze_too_many_raises:
  "int (length (encoder_layers m)) < n \<Longrightarrow>
   fst (snd (freeze_encoder_layers n m)) = Some IndexError"
proof -
  assume a: "int (length (encoder_layers m)) < n"
  then have pos: "0 < n" by linarith
  have "length (encoder_layers m) \<in> set (py_range n)"
    using a by (auto simp: py_range_def)
  then have "\<exists>i\<in>set (py_range n). \<not> i < length (encoder_layers m)" by blast
  from freeze_loop_out_of_range [OF this] show ?thesis
    using pos by (simp add: freeze_encoder_layers_def split: prod.splits)
qed

theorem freeze_too_many_raises_witness:
  "int (length (encoder_layers two_layer_model)) < 3 \<and>
   fst (snd (freeze_encoder_layers 3 two_layer_model)) = Some IndexError"
proof -
  have h: "int (length (encoder_layers two_layer_model)) < 3"
    by (simp add: two_layer_model_def)
  show ?thesis using h freeze_too_many_raises [OF h] by simp
qed

text \<open>
  Claim C6. For every count \<open>n\<close> with \<open>0 \<le> n \<le>\<close> the number of encoder layers, the
  freezing step raises nothing, every parameter of the layers at positions \<open>[0, n)\<close> is
  non-trainable afterwards, and every other parameter keeps the flag it had (so one that
  was trainable remains trainable). For \<open>n = 0\<close> the model is unchanged and the line
  \<open>No encoder layers are frozen.\<close> is printed.
\<close>

theorem freeze_prefix_only:
  "0 \<le> n \<Longrightarrow> n \<le> int (length (encoder_layers m)) \<Longrightarrow>
   (case freeze_encoder_layers n m of
      (printed, raised, m') \<Rightarrow>
        raised = None \<and>
        encoder_layers m' = encoder_layers m \<and>
        (\<forall>i<nat n. \<forall>p\<in>set (encoder_layers m ! i). \<not> requires_grad m' p) \<and>
        (\<forall>p. (\<forall>i<nat n. p \<notin> set (encoder_layers m ! i)) \<longrightarrow>
               requires_grad m' p = requires_grad m p) \<and>
        (n = 0 \<longrightarrow> m' = m \<and> printed = [''No encoder layers are frozen.'']))"
proof (cases "0 < n")
  case False
  assume "0 \<le> n"
  with False have "n = 0" by simp
  then show ?thesis by (simp add: freeze_encoder_layers_def)
next
  case True
  assume le: "n \<le> int (length (encoder_layers m))"
  have rng: "\<forall>i\<in>set (py_range n). i < length (encoder_layers m)"
    using le by (auto simp: py_range_def)
  obtain err m' where loop: "freeze_loop (py_range n) m = (err, m')"
    by (cases "freeze_loop (py_range n) m")
  have layers: "encoder_layers m' = encoder_layers m"
    using freeze_loop_layers [of "py_range n" m] loop by simp
  have err: "err = None"
    using freeze_loop_in_range [OF rng] loop by simp
  have flags: "requires_grad m' p =
      (if \<exists>i\<in>set (py_range n). p \<in> set (encoder_layers m ! i) then False else requires_grad m p)" for p
    using freeze_loop_in_range [OF rng, of p] loop by simp
  have mem: "(\<exists>i\<in>set (py_range n). P i) = (\<exists>i<nat n. P i)" for P
    by (auto simp: py_range_def)
  show ?thesis
    using True by (auto simp: freeze_encoder_layers_def loop layers err flags mem)
qed

theorem freeze_prefix_only_witness:
  "(0::int) \<le> 1 \<and> 1 \<le> int (length (encoder_layers two_layer_model)) \<and>
   (case freeze_encoder_layers 1 two_layer_model of
      (printed, raised, m') \<Rightarrow>
        raised = None \<and> \<not> requires_grad m' 0 \<and> \<not> requires_grad m' 1 \<and>
        requires_grad m' 2 \<and> requires_grad m' 3 \<and> requires_grad m' 4) \<and>
   (0::int) \<le> 0 \<and> 0 \<le> int (length (encoder_layers two_layer_model)) \<and>
   (case freeze_encoder_layers 0 two_layer_model of
      (printed, raised, m') \<Rightarrow>
        m' = two_layer_model \<and> printed = [''No encoder layers are frozen.''])"
proof -
  have h1: "(0::int) \<le> 1" by simp
  have h2: "1 \<le> int (length (encoder_layers two_layer_model))"
    by (simp add: two_layer_model_def)
  have h3: "(0::int) \<le> 0" by simp
  have h4: "0 \<le> int (length (encoder_layers two_layer_model))" by simp
  have layers: "encoder_layers two_layer_model = [[0, 1], [2, 3]]"
    by (simp add: two_layer_model_def)
  have flags: "requires_grad two_layer_model p" for p
    by (simp add: two_layer_model_def)
  show ?thesis
    using h2 freeze_prefix_only [OF h1 h2] freeze_prefix_only [OF h3 h4]
    by (auto simp: layers flags split: prod.splits)
qed

text \<open>
  Claim C10. The freezing step only ever clears \<open>requires_grad\<close>: a parameter that is
  non-trainable before the step is non-trainable after it, for every freeze-layer count,
  also when the step ends with an exception.
\<close>

theorem freeze_never_enables:
  "\<not> requires_grad m p \<Longrightarrow> \<not> requires_grad (snd (snd (freeze_encoder_layers n m))) p"
  using freeze_loop_mono [of m p "py_range n"]
  by (auto simp: freeze_encoder_layers_def split: prod.splits)

theorem freeze_never_enables_witness:
  "\<not> requires_grad (two_layer_model\<lparr>requires_grad := (\<lambda>p. p \<noteq> 4)\<rparr>) 4 \<and>
   \<not> requires_grad
       (snd (snd (freeze_encoder_layers 5 (two_layer_model\<lparr>requires_grad := (\<lambda>p. p \<noteq> 4)\<rparr>)))) 4"
proof -
  have h: "\<not> requires_grad (two_layer_model\<lparr>requires_grad := (\<lambda>p. p \<noteq> 4)\<rparr>) 4" by simp
  show ?thesis using h freeze_never_enables [OF h, of 5] by simp
qed

section \<open>The training arguments\<close>

lemma get_training_args_supported:
  "get_training_args ''small'' k \<noteq> None \<and> get_training_args ''medium'' k \<noteq> None \<and>
   get_training_args ''large'' k \<noteq> None"
  by (simp add: get_training_args_def)

text \<open>
  Claim C1. The claim is that the lookup returns a defined configuration for each of
  \<open>tiny\<close>, \<open>small\<close>, \<open>medium\<close>, \<open>large\<close>. The command line accepts \<open>tiny\<close> and
  \<open>model_map\<close> has an entry for it, but \<open>get_training_args\<close> has no branch for it: it
  reaches its end and returns \<open>None\<close>, for every freeze-layer count.
\<close>

theorem get_training_args_tiny_undefined:
  "''tiny'' \<in> set choices \<and> model_map ''tiny'' = Some ''openai/whisper-tiny'' \<and>
   get_training_args ''tiny'' k = None"
  by (simp add: choices_def model_map_def get_training_args_def)

text \<open>
  Claim C7. For size \<open>large\<close> and a freeze-layer count \<open>k > 0\<close> the output directory
  contains \<open>freezing-k\<close>; for size \<open>large\<close> and count 0 it contains \<open>vanilla\<close>; for
  size \<open>small\<close> it contains \<open>vanilla\<close> whatever the count.
\<close>

theorem output_dir_naming:
  "(0 < k \<longrightarrow> (\<exists>ta. get_training_args ''large'' k = Some ta \<and>
                     sublist (''freezing-'' @ str_int k) (output_dir ta))) \<and>
   (\<exists>ta. get_training_args ''large'' 0 = Some ta \<and> sublist ''vanilla'' (output_dir ta)) \<and>
   (\<exists>ta. get_training_args ''small'' k = Some ta \<and> sublist ''vanilla'' (output_dir ta))"
proof -
  have a: "sublist (''freezing-'' @ str_int k) (''../../trained_models/whisper-large-'' @ (''freezing-'' @ str_int k) @ [])"
    by (rule sublist_appendI)
  have b: "sublist ''vanilla'' (''../../trained_models/whisper-large-'' @ ''vanilla'' @ [])"
    by (rule sublist_appendI)
  have c: "sublist ''vanilla'' (''../../trained_models/whisper-small-'' @ ''vanilla'' @ [])"
    by (rule sublist_appendI)
  show ?thesis
    using a b c by (simp add: get_training_args_def size_args_def)
qed

theorem output_dir_naming_witness:
  "(0::int) < 3 \<and>
   (\<exists>ta. get_training_args ''large'' 3 = Some ta \<and> sublist ''freezing-3'' (output_dir ta))"
  using output_dir_naming [of 3] str_int_3 by simp

section \<open>The checkpoint locator\<close>

lemma is_digit_val: "is_digit c \<Longrightarrow> \<exists>v. digit_val c = Some v"
  by (auto simp: is_digit_def digit_val_def)

lemma is_digit_not_underscore: "is_digit c \<Longrightarrow> c \<noteq> CHR ''_''"
  by (auto simp: is_digit_def)

lemma is_digit_not_space: "is_digit c \<Longrightarrow> \<not> is_space c"
  by (auto simp: is_digit_def is_space_def)

lemma is_digit_not_sign: "is_digit c \<Longrightarrow> c \<noteq> CHR ''-'' \<and> c \<noteq> CHR ''+''"
  by (auto simp: is_digit_def)

lemma digits_acc_digits:
  "list_all is_digit ds \<Longrightarrow>
   digits_acc a ds = Some (foldl (\<lambda>a c. 10 * a + the (digit_val c)) a ds)"
proof (induction ds arbitrary: a)
  case Nil
  then show ?case by simp
next
  case (Cons c ds)
  then have c: "is_digit c" and ds: "list_all is_digit ds" by simp_all
  obtain v where v: "digit_val c = Some v" using is_digit_val [OF c] by blast
  show ?case
    using Cons.IH [OF ds] is_digit_not_underscore [OF c] by (simp add: v)
qed

lemma py_digits_digits:
  "ds \<noteq> [] \<Longrightarrow> list_all is_digit ds \<Longrightarrow> length ds \<le> int_max_str_digits \<Longrightarrow>
   py_digits ds = Some (decimal ds)"
proof (cases ds)
  case Nil
  assume "ds \<noteq> []"
  with Nil show ?thesis by simp
next
  case (Cons c cs)
  assume "list_all is_digit ds" and len: "length ds \<le> int_max_str_digits"
  with Cons have c: "is_digit c" and cs: "list_all is_digit cs" by simp_all
  obtain v where v: "digit_val c = Some v" using is_digit_val [OF c] by blast
  have "length (filter (\<lambda>d. d \<noteq> CHR ''_'') ds) \<le> length ds" by (rule length_filter_le)
  then have guard: "\<not> int_max_str_digits < length (filter (\<lambda>d. d \<noteq> CHR ''_'') (c # cs))"
    using len Cons by simp
  have "py_digits (c # cs) = digits_acc v cs"
    unfolding py_digits_def using guard by (simp add: v)
  then show ?thesis
    using digits_acc_digits [OF cs, of v] by (simp add: Cons decimal_def v)
qed

lemma py_strip_digits:
  "ds \<noteq> [] \<Longrightarrow> list_all is_digit ds \<Longrightarrow> py_strip ds = ds"
proof -
  assume ne: "ds \<noteq> []" and all: "list_all is_digit ds"
  have hd: "\<not> is_space (hd ds)"
    using ne all is_digit_not_space by (cases ds) auto
  have "last ds \<in> set ds" using ne by simp
  then have "is_digit (last ds)" using all by (simp add: list_all_iff)
  then have last: "\<not> is_space (hd (rev ds))"
    using ne is_digit_not_space by (simp add: hd_rev)
  have a: "dropWhile is_space ds = ds" using hd ne by (cases ds) auto
  have b: "dropWhile is_space (rev ds) = rev ds" using last ne by (cases "rev ds") auto
  show ?thesis by (simp add: py_strip_def a b)
qed

lemma py_int_digits:
  "ds \<noteq> [] \<Longrightarrow> list_all is_digit ds \<Longrightarrow> length ds \<le> int_max_str_digits \<Longrightarrow>
   py_int ds = Some (int (decimal ds))"
proof -
  assume ne: "ds \<noteq> []" and all: "list_all is_digit ds"
    and len: "length ds \<le> int_max_str_digits"
  obtain c cs where ds: "ds = c # cs" using ne by (cases ds) auto
  have "is_digit c" using all ds by simp
  then have sign: "c \<noteq> CHR ''-''" "c \<noteq> CHR ''+''" using is_digit_not_sign by auto
  have "py_int ds = map_option int (py_digits ds)"
    using sign py_strip_digits [OF ne all] by (simp add: py_int_def ds)
  then show ?thesis using py_digits_digits [OF ne all len] by simp
qed

text \<open>A count of more than 4300 digits is refused by \<open>int\<close>, hence by the command line.\<close>

lemma py_digits_limit:
  "int_max_str_digits < length (filter (\<lambda>d. d \<noteq> CHR ''_'') body) \<Longrightarrow> py_digits body = None"
  by (cases body) (auto simp: py_digits_def split: option.splits)

lemma py_int_digit_limit:
  "list_all is_digit ds \<Longrightarrow> int_max_str_digits < length ds \<Longrightarrow> py_int (CHR ''-'' # ds) = None"
proof -
  assume all: "list_all is_digit ds" and long: "int_max_str_digits < length ds"
  have ne: "ds \<noteq> []" using long by auto
  have "last ds \<in> set ds" using ne by simp
  then have "\<not> is_space (last ds)"
    using all is_digit_not_space by (auto simp: list_all_iff)
  then have "dropWhile is_space (rev ds @ ''-'') = rev ds @ ''-''"
    using ne by (cases ds rule: rev_cases) auto
  then have strip: "py_strip (CHR ''-'' # ds) = CHR ''-'' # ds"
    by (simp add: py_strip_def is_space_def)
  have "filter (\<lambda>d. d \<noteq> CHR ''_'') ds = ds"
    using all is_digit_not_underscore by (auto simp: list_all_iff filter_id_conv)
  then have "py_digits ds = None" using long by (simp add: py_digits_limit)
  then show ?thesis by (simp add: py_int_def strip)
qed

lemma parse_args_digit_limit:
  "list_all is_digit ds \<Longrightarrow> int_max_str_digits < length ds \<Longrightarrow>
   parse_args size_arg (Some (CHR ''-'' # ds)) = Inl ArgumentError"
  by (simp add: parse_args_def py_int_digit_limit)

lemma py_split_no_sep: "sep \<notin> set s \<Longrightarrow> py_split sep s = [s]"
  by (induction s) auto

lemma startswith_take: "startswith s p = (take (length p) s = p)"
  by (induction s p rule: startswith.induct) auto

lemma startswith_append: "startswith (p @ s) p"
  by (simp add: startswith_take)

lemma startswith_decompose: "startswith s p \<Longrightarrow> s = p @ drop (length p) s"
  by (induction s p rule: startswith.induct) auto

lemma well_formed_split:
  "well_formed_checkpoint e \<Longrightarrow> e = ''checkpoint-'' @ drop 11 e"
proof -
  assume "well_formed_checkpoint e"
  then have "startswith e ''checkpoint-''" by (simp add: well_formed_checkpoint_def)
  then have "e = ''checkpoint-'' @ drop (length ''checkpoint-'') e"
    by (rule startswith_decompose)
  moreover have "length ''checkpoint-'' = 11" by simp
  ultimately show ?thesis by (simp only:)
qed

lemma well_formed_startswith: "well_formed_checkpoint e \<Longrightarrow> startswith e ''checkpoint''"
proof -
  assume "well_formed_checkpoint e"
  then have "e = ''checkpoint-'' @ drop 11 e" by (rule well_formed_split)
  moreover have "startswith (''checkpoint-'' @ drop 11 e) ''checkpoint''" by simp
  ultimately show ?thesis by simp
qed

text \<open>The name of a directory entry is too short for the digit limit of \<open>int\<close>.\<close>

lemma name_of_Filename:
  "s \<noteq> [] \<Longrightarrow> length s \<le> 255 \<Longrightarrow> CHR ''/'' \<notin> set s \<Longrightarrow> name_of (Filename s) = s"
  by (simp add: Filename_inverse)

lemma os_listdir_name_length:
  "os_listdir fs d = Some entries \<Longrightarrow> e \<in> set entries \<Longrightarrow> length e \<le> 255"
proof -
  assume a: "os_listdir fs d = Some entries" and e: "e \<in> set entries"
  from a obtain xs where "entries = map name_of xs"
    by (auto simp: os_listdir_def)
  with e obtain x where "e = name_of x" by auto
  then show ?thesis using name_of [of x] by simp
qed

lemma checkpoint_key_well_formed:
  "well_formed_checkpoint e \<Longrightarrow> length e \<le> 255 \<Longrightarrow> checkpoint_key e = Inr (integer_suffix e)"
proof -
  assume wf: "well_formed_checkpoint e" and len: "length e \<le> 255"
  let ?ds = "drop 11 e"
  have ne: "?ds \<noteq> []" and all: "list_all is_digit ?ds"
    using wf by (simp_all add: well_formed_checkpoint_def)
  have short: "length ?ds \<le> int_max_str_digits"
    using len by (simp add: int_max_str_digits_def)
  have "CHR ''-'' \<notin> set ?ds"
    using all is_digit_not_sign by (auto simp: list_all_iff)
  then have split: "py_split CHR ''-'' (''checkpoint-'' @ ?ds) = [''checkpoint'', ?ds]"
    by (simp add: py_split_no_sep)
  have "checkpoint_key (''checkpoint-'' @ ?ds) = Inr (integer_suffix e)"
    unfolding checkpoint_key_def split
    by (simp add: py_index_def py_int_digits [OF ne all short] integer_suffix_def)
  then show ?thesis using well_formed_split [OF wf] by simp
qed

lemma keys_of_total:
  "\<forall>x\<in>set xs. key x = Inr (f x) \<Longrightarrow> keys_of key xs = Inr (map (\<lambda>x. (f x, x)) xs)"
  by (induction xs) auto

lemma keys_of_error:
  "x \<in> set xs \<Longrightarrow> key x = Inl e \<Longrightarrow> \<exists>e'. keys_of key xs = Inl e'"
  by (induction xs) (auto split: sum.splits)

lemma keys_of_error_range:
  "keys_of key xs = Inl e \<Longrightarrow> \<exists>x\<in>set xs. key x = Inl e"
  by (induction xs) (auto split: sum.splits)

lemma keys_of_defined:
  "keys_of key xs = Inr kxs \<Longrightarrow> \<forall>x\<in>set xs. \<exists>k. key x = Inr k"
  by (induction xs arbitrary: kxs) (auto split: sum.splits)

lemma sorted_last_max:
  "sorted (map f ys) \<Longrightarrow> y \<in> set ys \<Longrightarrow> f y \<le> f (last ys)"
  by (induction ys) (auto split: if_splits)

lemma sort_reverse_total:
  assumes "xs \<noteq> []" and "\<forall>x\<in>set xs. key x = Inr (f x)"
  shows "\<exists>ys. sort_reverse key xs = Inr ys \<and> ys \<noteq> [] \<and> hd ys \<in> set xs \<and>
              (\<forall>x\<in>set xs. f x \<le> f (hd ys))"
proof -
  let ?kxs = "map (\<lambda>x. (f x, x)) xs"
  let ?s = "sort_key fst (rev ?kxs)"
  let ?ys = "map snd (rev ?s)"
  have res: "sort_reverse key xs = Inr ?ys"
    using keys_of_total [OF assms(2)] by (simp add: sort_reverse_def)
  have set_s: "set ?s = set ?kxs" by simp
  have ne: "?s \<noteq> []" using assms(1) set_s by (metis (no_types, lifting) length_0_conv length_map length_rev length_sort)
  have sorted: "sorted (map fst ?s)" by (rule sorted_sort_key)
  have hd: "hd ?ys = snd (last ?s)" using ne by (simp add: hd_map hd_rev)
  have "last ?s \<in> set ?kxs" using ne set_s last_in_set by blast
  then obtain x where x: "x \<in> set xs" and lx: "last ?s = (f x, x)" by auto
  have max: "f x' \<le> f x" if "x' \<in> set xs" for x'
  proof -
    have "(f x', x') \<in> set ?s" using that by auto
    from sorted_last_max [OF sorted this] show ?thesis by (simp add: lx)
  qed
  show ?thesis
    using res ne x max by (auto simp: hd lx)
qed



lemma sort_reverse_shape:
  "sort_reverse key xs = Inr ys \<Longrightarrow> set ys = set xs \<and> length ys = length xs"
proof -
  assume a: "sort_reverse key xs = Inr ys"
  then obtain kxs where k: "keys_of key xs = Inr kxs"
    and ys: "ys = map snd (rev (sort_key fst (rev kxs)))"
    by (auto simp: sort_reverse_def split: sum.splits)
  have "map snd kxs = xs" using k
    by (induction xs arbitrary: kxs) (auto split: sum.splits)
  then have "set (map snd kxs) = set xs" "length kxs = length xs" by auto
  then show ?thesis by (auto simp: ys)
qed

lemma sort_reverse_error:
  "sort_reverse key xs = Inl e \<Longrightarrow> \<exists>x\<in>set xs. key x = Inl e"
  by (auto simp: sort_reverse_def split: sum.splits dest: keys_of_error_range)

lemma sort_reverse_raises:
  "x \<in> set xs \<Longrightarrow> key x = Inl e \<Longrightarrow> \<exists>e'. sort_reverse key xs = Inl e'"
  using keys_of_error [of x xs key e] by (auto simp: sort_reverse_def)

text \<open>
  When the sort returns, every element had a key, and the first element of the result
  is an element with the greatest key.
\<close>

lemma sort_reverse_maximum:
  assumes "xs \<noteq> []" and "sort_reverse key xs = Inr ys"
  shows "hd ys \<in> set xs \<and>
         (\<exists>k. key (hd ys) = Inr k \<and> (\<forall>x\<in>set xs. \<exists>k'. key x = Inr k' \<and> k' \<le> k))"
proof -
  let ?f = "\<lambda>x. case key x of Inl e \<Rightarrow> 0 | Inr k \<Rightarrow> k"
  from assms(2) obtain kxs where "keys_of key xs = Inr kxs"
    by (auto simp: sort_reverse_def split: sum.splits)
  then have "\<forall>x\<in>set xs. \<exists>k. key x = Inr k" by (rule keys_of_defined)
  then have keys: "\<forall>x\<in>set xs. key x = Inr (?f x)" by auto
  from sort_reverse_total [OF assms(1) keys] obtain ys' where
    "sort_reverse key xs = Inr ys'" and hd: "hd ys' \<in> set xs"
    and max: "\<forall>x\<in>set xs. ?f x \<le> ?f (hd ys')"
    by blast
  then have same: "ys' = ys" using assms(2) by simp
  have "key (hd ys) = Inr (?f (hd ys))" using keys hd same by blast
  moreover have "\<forall>x\<in>set xs. \<exists>k'. key x = Inr k' \<and> k' \<le> ?f (hd ys)"
    using keys max same by blast
  ultimately show ?thesis using hd same by blast
qed

lemma checkpoint_key_errors:
  "checkpoint_key e = Inl err \<Longrightarrow> err = ValueError \<or> err = IndexError"
  by (auto simp: checkpoint_key_def py_index_def split: sum.splits option.splits if_splits)

text \<open>The three possible outcomes of the locator.\<close>

lemma get_latest_checkpoint_cases:
  "get_latest_checkpoint fs d =
     (case os_listdir fs d of
        None \<Rightarrow> Inr None
      | Some entries \<Rightarrow>
          (let cs = filter (\<lambda>x. startswith x ''checkpoint'') entries in
           if cs = [] then Inr None
           else (case sort_reverse checkpoint_key cs of
                   Inl e \<Rightarrow> Inl e
                 | Inr ys \<Rightarrow> Inr (Some (path_join d (hd ys))))))"
proof (cases "os_listdir fs d")
  case None
  then show ?thesis by (simp add: get_latest_checkpoint_def)
next
  case (Some entries)
  let ?cs = "filter (\<lambda>x. startswith x ''checkpoint'') entries"
  show ?thesis
  proof (cases "sort_reverse checkpoint_key ?cs")
    case (Inl e)
    then show ?thesis by (simp add: get_latest_checkpoint_def Some Let_def)
  next
    case (Inr ys)
    have "length ys = length ?cs" using sort_reverse_shape [OF Inr] by simp
    then have "?cs \<noteq> [] \<Longrightarrow> py_index ys 0 = Inr (hd ys)"
      by (cases ys) (auto simp: py_index_def)
    then show ?thesis by (auto simp: get_latest_checkpoint_def Some Inr Let_def)
  qed
qed

lemmas eval_defs =
  get_latest_checkpoint_def os_listdir_def dir_with_def name_of_Filename sort_reverse_def
  checkpoint_key_def py_index_def py_int_def py_strip_def is_space_def py_digits_def
  int_max_str_digits_def digit_val_def path_join_def Let_def

lemma latest_checkpoint_example:
  "get_latest_checkpoint
     (dir_with ''out'' [''checkpoint-500'', ''checkpoint-1500'', ''checkpoint-200'']) ''out'' =
   Inr (Some ''out/checkpoint-1500'')"
  by (simp add: eval_defs)

text \<open>
  Claim C5. If the directory does not exist, or exists but has no entry whose name
  begins with \<open>checkpoint\<close>, the locator returns \<open>None\<close>. Otherwise, when the
  entries beginning with \<open>checkpoint\<close> are well-formed \<open>checkpoint-<integer>\<close> names,
  it returns the path of an entry whose integer suffix is the maximum (among
  \<open>checkpoint-500\<close>, \<open>checkpoint-1500\<close>, \<open>checkpoint-200\<close>: the path of
  \<open>checkpoint-1500\<close>).
\<close>

theorem latest_checkpoint_is_maximum:
  "(os_listdir fs d = None \<longrightarrow> get_latest_checkpoint fs d = Inr None) \<and>
   (\<forall>entries. os_listdir fs d = Some entries \<and>
      (\<forall>e\<in>set entries. \<not> startswith e ''checkpoint'') \<longrightarrow>
      get_latest_checkpoint fs d = Inr None) \<and>
   (\<forall>entries. os_listdir fs d = Some entries \<and>
      (\<exists>e\<in>set entries. startswith e ''checkpoint'') \<and>
      (\<forall>e\<in>set entries. startswith e ''checkpoint'' \<longrightarrow> well_formed_checkpoint e) \<longrightarrow>
      (\<exists>e\<in>set entries. well_formed_checkpoint e \<and>
         get_latest_checkpoint fs d = Inr (Some (path_join d e)) \<and>
         (\<forall>e'\<in>set entries. well_formed_checkpoint e' \<longrightarrow>
            integer_suffix e' \<le> integer_suffix e)))"
proof (intro conjI allI impI)
  assume "os_listdir fs d = None"
  then show "get_latest_checkpoint fs d = Inr None"
    by (simp add: get_latest_checkpoint_cases)
next
  fix entries
  assume a: "os_listdir fs d = Some entries \<and>
      (\<forall>e\<in>set entries. \<not> startswith e ''checkpoint'')"
  then have "filter (\<lambda>x. startswith x ''checkpoint'') entries = []"
    by (simp add: filter_empty_conv)
  then show "get_latest_checkpoint fs d = Inr None"
    using a by (simp add: get_latest_checkpoint_cases)
next
  fix entries
  assume a: "os_listdir fs d = Some entries \<and>
      (\<exists>e\<in>set entries. startswith e ''checkpoint'') \<and>
      (\<forall>e\<in>set entries. startswith e ''checkpoint'' \<longrightarrow> well_formed_checkpoint e)"
  let ?cs = "filter (\<lambda>x. startswith x ''checkpoint'') entries"
  have ne: "?cs \<noteq> []" using a by (auto simp: filter_empty_conv)
  have short: "\<forall>x\<in>set entries. length x \<le> 255"
    using a os_listdir_name_length by blast
  have keys: "\<forall>x\<in>set ?cs. checkpoint_key x = Inr (integer_suffix x)"
    using a short by (auto intro: checkpoint_key_well_formed)
  from sort_reverse_total [OF ne keys] obtain ys where
    ys: "sort_reverse checkpoint_key ?cs = Inr ys" and hd: "hd ys \<in> set ?cs"
    and max: "\<forall>x\<in>set ?cs. integer_suffix x \<le> integer_suffix (hd ys)"
    by blast
  have res: "get_latest_checkpoint fs d = Inr (Some (path_join d (hd ys)))"
    using a ne by (simp add: get_latest_checkpoint_cases ys)
  have "hd ys \<in> set entries" and "well_formed_checkpoint (hd ys)"
    using hd a by auto
  moreover have "\<forall>e'\<in>set entries. well_formed_checkpoint e' \<longrightarrow>
      integer_suffix e' \<le> integer_suffix (hd ys)"
    using max by (auto dest: well_formed_startswith)
  ultimately show "\<exists>e\<in>set entries. well_formed_checkpoint e \<and>
         get_latest_checkpoint fs d = Inr (Some (path_join d e)) \<and>
         (\<forall>e'\<in>set entries. well_formed_checkpoint e' \<longrightarrow>
            integer_suffix e' \<le> integer_suffix e)"
    using res by blast
qed

theorem latest_checkpoint_is_maximum_witness:
  "os_listdir
     (dir_with ''out'' [''checkpoint-500'', ''checkpoint-1500'', ''checkpoint-200'', ''runs''])
     ''out'' = Some [''checkpoint-500'', ''checkpoint-1500'', ''checkpoint-200'', ''runs''] \<and>
   (\<exists>e\<in>set [''checkpoint-500'', ''checkpoint-1500'', ''checkpoint-200'', ''runs''].
      startswith e ''checkpoint'') \<and>
   well_formed_checkpoint ''checkpoint-500'' \<and> well_formed_checkpoint ''checkpoint-1500'' \<and>
   well_formed_checkpoint ''checkpoint-200'' \<and> \<not> startswith ''runs'' ''checkpoint'' \<and>
   get_latest_checkpoint
     (dir_with ''out'' [''checkpoint-500'', ''checkpoint-1500'', ''checkpoint-200'', ''runs''])
     ''out'' = Inr (Some ''out/checkpoint-1500'') \<and>
   get_latest_checkpoint (dir_with ''out'' [''runs'']) ''out'' = Inr None \<and>
   get_latest_checkpoint (dir_with ''out'' []) ''elsewhere'' = Inr None"
  using latest_checkpoint_is_maximum
    [of "dir_with ''out'' [''checkpoint-500'', ''checkpoint-1500'', ''checkpoint-200'', ''runs'']"
        "''out''"]
  by (simp add: eval_defs well_formed_checkpoint_def is_digit_def)

text \<open>
  Claim C4, as stated: every directory with an entry that begins with the checkpoint
  prefix and whose suffix is not an integer makes the locator fail with a parse error.
  The suffix \<open>100-backup\<close> is not an integer, and the locator returns the entry.
\<close>

theorem trailing_text_counterexample:
  "get_latest_checkpoint (dir_with ''out'' [''checkpoint-100-backup'']) ''out'' =
   Inr (Some ''out/checkpoint-100-backup'')"
  by (simp add: eval_defs)

text \<open>
  Claim C4, amended. For every existing directory with an entry that begins with
  \<open>checkpoint\<close> and whose field between the first and the second \<open>-\<close> is missing or
  is not accepted by \<open>int\<close>, the locator raises (\<open>ValueError\<close> from \<open>int\<close>, or
  \<open>IndexError\<close> for a name without \<open>-\<close>); the entry is never skipped. For
  \<open>checkpoint-abc\<close> the exception is \<open>ValueError\<close>.
\<close>

theorem malformed_checkpoint_raises:
  "os_listdir fs d = Some entries \<Longrightarrow> e \<in> set entries \<Longrightarrow> startswith e ''checkpoint'' \<Longrightarrow>
   length (py_split CHR ''-'' e) < 2 \<or> py_int (py_split CHR ''-'' e ! 1) = None \<Longrightarrow>
   get_latest_checkpoint fs d = Inl ValueError \<or> get_latest_checkpoint fs d = Inl IndexError"
proof -
  assume fs: "os_listdir fs d = Some entries" and e: "e \<in> set entries"
    and sw: "startswith e ''checkpoint''"
    and bad: "length (py_split CHR ''-'' e) < 2 \<or> py_int (py_split CHR ''-'' e ! 1) = None"
  let ?cs = "filter (\<lambda>x. startswith x ''checkpoint'') entries"
  have mem: "e \<in> set ?cs" using e sw by simp
  have ne: "?cs \<noteq> []" using e sw by (auto simp: filter_empty_conv)
  have "\<exists>err. checkpoint_key e = Inl err"
  proof (cases "1 < length (py_split CHR ''-'' e)")
    case True
    then have "py_int (py_split CHR ''-'' e ! 1) = None" using bad by auto
    then show ?thesis using True by (simp add: checkpoint_key_def py_index_def)
  next
    case False
    then show ?thesis by (simp add: checkpoint_key_def py_index_def)
  qed
  then obtain err where err: "checkpoint_key e = Inl err" by blast
  from sort_reverse_raises [of e ?cs checkpoint_key err, OF mem err] obtain e' where
    raised: "sort_reverse checkpoint_key ?cs = Inl e'" by blast
  from sort_reverse_error [OF raised] checkpoint_key_errors
  have "e' = ValueError \<or> e' = IndexError" by blast
  moreover have "get_latest_checkpoint fs d = Inl e'"
    using fs ne by (simp add: get_latest_checkpoint_cases raised)
  ultimately show ?thesis by auto
qed

theorem malformed_checkpoint_raises_witness:
  "os_listdir (dir_with ''out'' [''checkpoint-500'', ''checkpoint-abc'']) ''out'' =
     Some [''checkpoint-500'', ''checkpoint-abc''] \<and>
   ''checkpoint-abc'' \<in> set [''checkpoint-500'', ''checkpoint-abc''] \<and>
   startswith ''checkpoint-abc'' ''checkpoint'' \<and>
   py_int (py_split CHR ''-'' ''checkpoint-abc'' ! 1) = None \<and>
   get_latest_checkpoint (dir_with ''out'' [''checkpoint-500'', ''checkpoint-abc'']) ''out'' =
     Inl ValueError \<and>
   get_latest_checkpoint (dir_with ''out'' [''checkpoint'']) ''out'' = Inl IndexError"
  using malformed_checkpoint_raises
    [of "dir_with ''out'' [''checkpoint-500'', ''checkpoint-abc'']" "''out''"
        "[''checkpoint-500'', ''checkpoint-abc'']" "''checkpoint-abc''"]
  by (simp add: eval_defs)

lemma py_split_first_fields:
  "sep \<notin> set p \<Longrightarrow> sep \<notin> set t \<Longrightarrow>
   py_split sep (p @ sep # t @ sep # rest) = p # t # py_split sep rest"
proof (induction p)
  case Nil
  have "py_split sep (t @ sep # rest) = t # py_split sep rest"
    using Nil.prems(2) by (induction t) auto
  then show ?case by simp
next
  case (Cons c p)
  then show ?case by auto
qed

lemma py_split_two_fields:
  "sep \<notin> set p \<Longrightarrow> sep \<notin> set t \<Longrightarrow> py_split sep (p @ sep # t) = [p, t]"
  by (induction p) (auto simp: py_split_no_sep)

text \<open>
  Claim C9. Every entry whose name starts with \<open>checkpoint\<close> is a candidate, and the
  step number of a candidate is \<open>int\<close> of the text between its first and its second
  \<open>-\<close>, whatever follows. So, for a directory with at least one candidate, the locator
  never returns \<open>None\<close>: it raises the exception of the key of a candidate, or it
  returns the path of a candidate whose key is the greatest, every candidate having a
  key. \<open>checkpoint-100-backup\<close> is read as step 100 and is returned before
  \<open>checkpoint-50\<close>; \<open>checkpoints-old\<close> and a bare \<open>checkpoint\<close> are candidates too,
  and make the locator raise (\<open>int('old')\<close>, no second field).
\<close>

theorem candidates_by_prefix_key_by_first_field:
  "(\<forall>entries. os_listdir fs d = Some entries \<and>
      (\<exists>e\<in>set entries. startswith e ''checkpoint'') \<longrightarrow>
      (case get_latest_checkpoint fs d of
         Inl err \<Rightarrow> \<exists>e\<in>set entries. startswith e ''checkpoint'' \<and> checkpoint_key e = Inl err
       | Inr None \<Rightarrow> False
       | Inr (Some path) \<Rightarrow>
           \<exists>e\<in>set entries. startswith e ''checkpoint'' \<and> path = path_join d e \<and>
             (\<exists>k. checkpoint_key e = Inr k \<and>
                (\<forall>e'\<in>set entries. startswith e' ''checkpoint'' \<longrightarrow>
                   (\<exists>k'. checkpoint_key e' = Inr k' \<and> k' \<le> k))))) \<and>
   (CHR ''-'' \<notin> set p \<and> CHR ''-'' \<notin> set t \<longrightarrow>
      checkpoint_key (p @ ''-'' @ t @ ''-'' @ rest) =
        (case py_int t of None \<Rightarrow> Inl ValueError | Some n \<Rightarrow> Inr n) \<and>
      checkpoint_key (p @ ''-'' @ t) =
        (case py_int t of None \<Rightarrow> Inl ValueError | Some n \<Rightarrow> Inr n) \<and>
      checkpoint_key p = Inl IndexError) \<and>
   checkpoint_key ''checkpoint-100-backup'' = Inr 100 \<and>
   get_latest_checkpoint (dir_with ''out'' [''checkpoint-50'', ''checkpoint-100-backup'']) ''out'' =
     Inr (Some ''out/checkpoint-100-backup'') \<and>
   get_latest_checkpoint (dir_with ''out'' [''checkpoints-old'']) ''out'' = Inl ValueError \<and>
   get_latest_checkpoint (dir_with ''out'' [''checkpoint'']) ''out'' = Inl IndexError"
proof (intro conjI allI impI)
  fix entries
  assume a: "os_listdir fs d = Some entries \<and> (\<exists>e\<in>set entries. startswith e ''checkpoint'')"
  let ?cs = "filter (\<lambda>x. startswith x ''checkpoint'') entries"
  have ne: "?cs \<noteq> []" using a by (auto simp: filter_empty_conv)
  show "case get_latest_checkpoint fs d of
         Inl err \<Rightarrow> \<exists>e\<in>set entries. startswith e ''checkpoint'' \<and> checkpoint_key e = Inl err
       | Inr None \<Rightarrow> False
       | Inr (Some path) \<Rightarrow>
           \<exists>e\<in>set entries. startswith e ''checkpoint'' \<and> path = path_join d e \<and>
             (\<exists>k. checkpoint_key e = Inr k \<and>
                (\<forall>e'\<in>set entries. startswith e' ''checkpoint'' \<longrightarrow>
                   (\<exists>k'. checkpoint_key e' = Inr k' \<and> k' \<le> k)))"
  proof (cases "sort_reverse checkpoint_key ?cs")
    case (Inl err)
    have res: "get_latest_checkpoint fs d = Inl err"
      using a ne by (simp add: get_latest_checkpoint_cases Inl)
    from sort_reverse_error [OF Inl] obtain x where
      "x \<in> set entries" "startswith x ''checkpoint''" "checkpoint_key x = Inl err"
      by auto
    then show ?thesis unfolding res by auto
  next
    case (Inr ys)
    have res: "get_latest_checkpoint fs d = Inr (Some (path_join d (hd ys)))"
      using a ne by (simp add: get_latest_checkpoint_cases Inr)
    from sort_reverse_maximum [OF ne Inr] obtain k where
      hd: "hd ys \<in> set ?cs" and k: "checkpoint_key (hd ys) = Inr k"
      and max: "\<forall>x\<in>set ?cs. \<exists>k'. checkpoint_key x = Inr k' \<and> k' \<le> k"
      by blast
    have "hd ys \<in> set entries" "startswith (hd ys) ''checkpoint''" using hd by auto
    moreover have "\<forall>e'\<in>set entries. startswith e' ''checkpoint'' \<longrightarrow>
        (\<exists>k'. checkpoint_key e' = Inr k' \<and> k' \<le> k)"
      using max by auto
    ultimately show ?thesis unfolding res using k by auto
  qed
next
  assume "CHR ''-'' \<notin> set p \<and> CHR ''-'' \<notin> set t"
  then show "checkpoint_key (p @ ''-'' @ t @ ''-'' @ rest) =
        (case py_int t of None \<Rightarrow> Inl ValueError | Some n \<Rightarrow> Inr n)"
    by (simp add: checkpoint_key_def py_split_first_fields py_index_def)
next
  assume "CHR ''-'' \<notin> set p \<and> CHR ''-'' \<notin> set t"
  then show "checkpoint_key (p @ ''-'' @ t) =
        (case py_int t of None \<Rightarrow> Inl ValueError | Some n \<Rightarrow> Inr n)"
    by (simp add: checkpoint_key_def py_split_two_fields py_index_def)
next
  assume "CHR ''-'' \<notin> set p \<and> CHR ''-'' \<notin> set t"
  then show "checkpoint_key p = Inl IndexError"
    by (simp add: checkpoint_key_def py_split_no_sep py_index_def)
next
  show "checkpoint_key ''checkpoint-100-backup'' = Inr 100"
    by (simp add: eval_defs)
next
  show "get_latest_checkpoint (dir_with ''out'' [''checkpoint-50'', ''checkpoint-100-backup''])
     ''out'' = Inr (Some ''out/checkpoint-100-backup'')"
    by (simp add: eval_defs)
next
  show "get_latest_checkpoint (dir_with ''out'' [''checkpoints-old'']) ''out'' = Inl ValueError"
    by (simp add: eval_defs)
next
  show "get_latest_checkpoint (dir_with ''out'' [''checkpoint'']) ''out'' = Inl IndexError"
    by (simp add: eval_defs)
qed

theorem candidates_by_prefix_key_by_first_field_witness:
  "os_listdir (dir_with ''out'' [''checkpoint-50'', ''checkpoint-100-backup'']) ''out'' =
     Some [''checkpoint-50'', ''checkpoint-100-backup''] \<and>
   (\<exists>e\<in>set [''checkpoint-50'', ''checkpoint-100-backup'']. startswith e ''checkpoint'') \<and>
   get_latest_checkpoint (dir_with ''out'' [''checkpoint-50'', ''checkpoint-100-backup'']) ''out'' =
     Inr (Some (path_join ''out'' ''checkpoint-100-backup'')) \<and>
   checkpoint_key ''checkpoint-50'' = Inr 50 \<and>
   CHR ''-'' \<notin> set ''checkpoint'' \<and> CHR ''-'' \<notin> set ''100'' \<and>
   checkpoint_key (''checkpoint'' @ ''-'' @ ''100'' @ ''-'' @ ''backup'') = Inr 100 \<and>
   checkpoint_key ''checkpoint'' = Inl IndexError"
  using candidates_by_prefix_key_by_first_field
    [of "dir_with ''out'' [''checkpoint-50'', ''checkpoint-100-backup'']" "''out''"
        "''checkpoint''" "''100''" "''backup''"]
  by (simp add: eval_defs)


section \<open>The run\<close>





lemma prepare_training_args:
  "prepare e a = (evs, Inr (model_id, m, ta)) \<Longrightarrow>
   ta = get_training_args (args_model_size a) (args_freeze_layers a)"
  by (auto simp: prepare_def Let_def split: option.splits prod.splits if_splits)

lemma prepare_first_events:
  "model_map (args_model_size a) \<noteq> None \<Longrightarrow>
   take 2 (fst (prepare e a)) =
     [Print (''Using device: '' @ (if cuda_is_available e then ''cuda:0'' else ''cpu'')),
      LoadDataset (''../../data_processed/dataset_dict_'' @ args_model_size a)]"
  by (auto simp: prepare_def Let_def split: option.splits prod.splits)

lemma model_map_choices: "size_arg \<in> set choices \<Longrightarrow> model_map size_arg \<noteq> None"
  by (auto simp: choices_def model_map_def)

text \<open>A count below 0 and the count 0 go the same way through lines 20--150.\<close>

lemma freeze_encoder_layers_negative:
  "n < 0 \<Longrightarrow> freeze_encoder_layers n m = freeze_encoder_layers 0 m"
  by (simp add: freeze_encoder_layers_def)

lemma get_training_args_negative:
  "n < 0 \<Longrightarrow> get_training_args model_size n = get_training_args model_size 0"
  by (simp add: get_training_args_def)

lemma prepare_negative:
  "n < 0 \<Longrightarrow>
   prepare e \<lparr>args_model_size = size_arg, args_freeze_layers = n\<rparr> =
   prepare e \<lparr>args_model_size = size_arg, args_freeze_layers = 0\<rparr>"
  by (simp add: prepare_def Let_def freeze_encoder_layers_negative get_training_args_negative
      split: option.splits prod.splits)

lemmas run_defs =
  script_def prepare_def parse_args_def choices_def model_map_def fresh_env_def
  freeze_encoder_layers_def get_training_args_def checkpoint_stage_def truthy_def
  size_args_def

lemma tiny_run_aborts:
  "snd (script fresh_env ''tiny'' None) = Inl AttributeError"
  by (simp add: run_defs)


lemma prepare_loads_dataset:
  "model_map (args_model_size a) \<noteq> None \<Longrightarrow>
   \<exists>rest. fst (prepare e a) =
     Print (''Using device: '' @ (if cuda_is_available e then ''cuda:0'' else ''cpu'')) #
     LoadDataset (''../../data_processed/dataset_dict_'' @ args_model_size a) # rest"
  by (auto simp: prepare_def Let_def split: option.splits prod.splits)

lemma script_events_prefix:
  "parse_args size_arg freeze_arg = Inr a \<Longrightarrow>
   \<exists>rest. fst (script e size_arg freeze_arg) = fst (prepare e a) @ rest"
  by (auto simp: script_def split: prod.splits sum.splits option.splits)




text \<open>
  Claim C2, as stated: a negative freeze-layer count is rejected as an input
  validation error before the dataset or the model is loaded. With
  \<open>--freeze_layers -1\<close> the run loads both and reaches the training loop.
\<close>

theorem negative_freeze_accepted_counterexample:
  "script fresh_env ''small'' (Some ''-1'') =
     ([Print ''Using device: cpu'',
       LoadDataset ''../../data_processed/dataset_dict_small'',
       Print ''Data set loaded.'',
       LoadModel ''openai/whisper-small'',
       Print ''No encoder layers are frozen.'',
       Print ''Model openai/whisper-small set up finished.'',
       LoadProcessor ''openai/whisper-small'',
       Print ''Data collator finished.'',
       Print ''No checkpoint found. Starting fresh training.'',
       SaveProcessor ''../../trained_models/whisper-small-vanilla'',
       Print ''Starting training for openai/whisper-small...'',
       Train None],
      Inr \<lparr>call_model = two_layer_model,
           call_args = size_args ''../../trained_models/whisper-small-vanilla'' 16 1
                         (125 / 10000000) 500,
           call_resume = None\<rparr>)"
  by (simp add: run_defs eval_defs)

text \<open>
  Claim C2, amended. For every supported size and every value of the flag that \<open>int\<close>
  reads as a negative count, the command line accepts the count, the freezing step
  treats it like 0 (it changes no parameter, raises nothing and prints
  \<open>No encoder layers are frozen.\<close>), and the whole run is the run without the flag:
  it starts by printing the device and loading the dataset.
\<close>

theorem negative_freeze_is_no_freeze:
  "n < 0 \<Longrightarrow> size_arg \<in> set choices \<Longrightarrow> py_int s = Some n \<Longrightarrow>
   parse_args size_arg (Some s) = Inr \<lparr>args_model_size = size_arg, args_freeze_layers = n\<rparr> \<and>
   freeze_encoder_layers n m = ([''No encoder layers are frozen.''], None, m) \<and>
   script e size_arg (Some s) = script e size_arg None \<and>
   (\<exists>rest. fst (script e size_arg (Some s)) =
      Print (''Using device: '' @ (if cuda_is_available e then ''cuda:0'' else ''cpu'')) #
      LoadDataset (''../../data_processed/dataset_dict_'' @ size_arg) # rest)"
proof -
  assume neg: "n < 0" and size: "size_arg \<in> set choices" and s: "py_int s = Some n"
  let ?a = "\<lparr>args_model_size = size_arg, args_freeze_layers = n\<rparr>"
  have flag: "parse_args size_arg (Some s) = Inr ?a"
    using size s by (simp add: parse_args_def)
  have no_flag: "parse_args size_arg None =
      Inr \<lparr>args_model_size = size_arg, args_freeze_layers = 0\<rparr>"
    using size by (simp add: parse_args_def)
  have same: "script e size_arg (Some s) = script e size_arg None"
    by (simp add: script_def flag no_flag prepare_negative [OF neg])
  have "model_map (args_model_size ?a) \<noteq> None"
    using model_map_choices [OF size] by simp
  from prepare_loads_dataset [OF this, of e] script_events_prefix [OF flag, of e]
  have "\<exists>rest. fst (script e size_arg (Some s)) =
      Print (''Using device: '' @ (if cuda_is_available e then ''cuda:0'' else ''cpu'')) #
      LoadDataset (''../../data_processed/dataset_dict_'' @ size_arg) # rest"
    by auto
  then show ?thesis
    using neg flag same by (simp add: freeze_encoder_layers_def)
qed

theorem negative_freeze_is_no_freeze_witness:
  "(- 1 :: int) < 0 \<and> ''small'' \<in> set choices \<and> py_int ''-1'' = Some (- 1) \<and>
   parse_args ''small'' (Some ''-1'') =
     Inr \<lparr>args_model_size = ''small'', args_freeze_layers = - 1\<rparr> \<and>
   freeze_encoder_layers (- 1) two_layer_model =
     ([''No encoder layers are frozen.''], None, two_layer_model) \<and>
   script fresh_env ''small'' (Some ''-1'') = script fresh_env ''small'' None \<and>
   (\<exists>rest. fst (script fresh_env ''small'' (Some ''-1'')) =
      Print ''Using device: cpu'' #
      LoadDataset ''../../data_processed/dataset_dict_small'' # rest)"
proof -
  have h1: "(- 1 :: int) < 0" by simp
  have h2: "''small'' \<in> set choices" by (simp add: choices_def)
  have h3: "py_int ''-1'' = Some (- 1)" by (rule py_int_neg)
  have dev: "\<not> cuda_is_available fresh_env" by (simp add: fresh_env_def)
  note run = negative_freeze_is_no_freeze [OF h1 h2 h3, of two_layer_model fresh_env]
  have events: "\<exists>rest. fst (script fresh_env ''small'' (Some ''-1'')) =
      Print ''Using device: cpu'' #
      LoadDataset ''../../data_processed/dataset_dict_small'' # rest"
    using run [THEN conjunct2, THEN conjunct2, THEN conjunct2] by (simp add: dev)
  show ?thesis
    using h1 h2 h3 run events by blast
qed

end
